theory Spec2Isabelle
  imports Main "HOL-Library.Word" "HOL-Library.Sublist"
begin

section \<open>JavaScript strings\<close>

text \<open>
  A JavaScript string is a sequence of UTF-16 code units; \<open>length\<close>, \<open>slice\<close>,
  \<open>includes\<close>, \<open>trim\<close> and the regular expression of \<^verbatim>\<open>server.js\<close> all work on
  code units. String literals of the source are ASCII and are written with \<open>js\<close>.
\<close>

type_synonym jschar = "16 word"
type_synonym jsstring = "jschar list"

definition js :: "string \<Rightarrow> jsstring" where
  "js s = map of_char s"

definition is_ascii :: "jschar \<Rightarrow> bool" where
  "is_ascii c = (c < 0x80)"

definition ascii_lower :: "jschar \<Rightarrow> jschar" where
  "ascii_lower c = (if 0x41 \<le> c \<and> c \<le> 0x5A then c + 0x20 else c)"

definition ascii_upper :: "jschar \<Rightarrow> jschar" where
  "ascii_upper c = (if 0x61 \<le> c \<and> c \<le> 0x7A then c - 0x20 else c)"

text \<open>
  \<^verbatim>\<open>String.prototype.toLowerCase\<close>. On a string of ASCII code units it maps \<open>A\<close>..\<open>Z\<close> to
  \<open>a\<close>..\<open>z\<close> and leaves the rest. On any other string the result is given by the Unicode
  case tables of the runtime, which are no part of the repository: they are the parameter
  \<open>unicode_lower\<close>, about which nothing is assumed.
\<close>

definition toLowerCase :: "(jsstring \<Rightarrow> jsstring) \<Rightarrow> jsstring \<Rightarrow> jsstring" where
  "toLowerCase unicode_lower s =
     (if list_all is_ascii s then map ascii_lower s else unicode_lower s)"

text \<open>
  \<^verbatim>\<open>String.prototype.trim\<close> strips the code units of the ECMAScript productions WhiteSpace
  and LineTerminator from both ends: TAB, LF, VT, FF, CR, SPACE, NBSP, U+1680,
  U+2000..U+200A, U+2028, U+2029, U+202F, U+205F, U+3000 and U+FEFF.
\<close>

definition is_white_space :: "jschar \<Rightarrow> bool" where
  "is_white_space c =
     (c = 0x09 \<or> c = 0x0A \<or> c = 0x0B \<or> c = 0x0C \<or> c = 0x0D \<or> c = 0x20 \<or> c = 0xA0 \<or>
      c = 0x1680 \<or> (0x2000 \<le> c \<and> c \<le> 0x200A) \<or> c = 0x2028 \<or> c = 0x2029 \<or>
      c = 0x202F \<or> c = 0x205F \<or> c = 0x3000 \<or> c = 0xFEFF)"

definition trim :: "jsstring \<Rightarrow> jsstring" where
  "trim s = rev (dropWhile is_white_space (rev (dropWhile is_white_space s)))"

text \<open>
  \<^verbatim>\<open>s.includes(p)\<close>: \<open>p\<close> occurs in \<open>s\<close> at some position, searched from position 0.
\<close>

fun includes_str :: "jsstring \<Rightarrow> jsstring \<Rightarrow> bool" where
  "includes_str [] p = (p = [])"
| "includes_str (c # cs) p = (prefix p (c # cs) \<or> includes_str cs p)"

text \<open>
  The regular expression \<^verbatim>\<open>/^https?:\/\//i\<close>. It has the flag \<open>i\<close> and not the flag \<open>u\<close>:
  a code unit is compared through its upper case, and a non-ASCII code unit is never
  identified with an ASCII one, so a letter of the pattern matches exactly its two ASCII
  cases. \<open>ci_prefix p s\<close> matches the literal \<open>p\<close> at the start of \<open>s\<close>.
\<close>

definition ci_match :: "jschar \<Rightarrow> jschar \<Rightarrow> bool" where
  "ci_match a c = (is_ascii c \<and> ascii_upper c = ascii_upper a)"

fun ci_prefix :: "jsstring \<Rightarrow> jsstring \<Rightarrow> bool" where
  "ci_prefix [] s = True"
| "ci_prefix (a # as) [] = False"
| "ci_prefix (a # as) (c # cs) = (ci_match a c \<and> ci_prefix as cs)"

text \<open>
  \<open>^\<close> anchors at position 0 (no flag \<open>m\<close>); \<open>s?\<close> is greedy: the match is tried with the
  \<open>s\<close> first and without it on failure.
\<close>

definition scheme_regex_test :: "jsstring \<Rightarrow> bool" where
  "scheme_regex_test url =
     (ci_prefix (js ''http'') url \<and>
      (let r = drop 4 url in
         (ci_prefix (js ''s'') r \<and> ci_prefix (js ''://'') (drop 1 r)) \<or>
         ci_prefix (js ''://'') r))"

section \<open>The public fetch endpoint\<close>

text \<open>
  \<^verbatim>\<open>req.query.url\<close> as the query parser leaves it: absent, a string, or (for a repeated or
  bracketed parameter) an array or object, which is truthy and has no method \<open>trim\<close>.
\<close>

datatype query_value = Absent | QString jsstring | QOther

text \<open>
  The outbound request \<^verbatim>\<open>fetch(url, { redirect: 'follow', timeout: 5000 })\<close> is
  \<open>Fetch url (js ''follow'') 5000\<close>. What it does is decided by the fetch library and
  the world, not by the program:
  \<open>Rejected e\<close> when \<^verbatim>\<open>await fetch(...)\<close> throws \<open>e\<close>,
  \<open>Resolved status (BodyFailed e)\<close> when it yields a response and \<^verbatim>\<open>await r.text()\<close> throws
  \<open>e\<close>, \<open>Resolved status (BodyText text)\<close> when both succeed. The library's timer and what
  it throws when are not code of the repository; they are inside the parameter \<open>net\<close>.

  A thrown error \<open>Thrown kind s\<close> is of one of three kinds: a failure at the network
  level (DNS, refused connection, TLS), the expiry of the timeout, or any other error,
  such as the TypeError of the library for a url that it cannot parse. \<open>String_of e\<close> is
  \<^verbatim>\<open>String(e)\<close>.
\<close>

datatype fetch_call = Fetch jsstring jsstring nat

datatype error_kind = NetworkFailure | TimeoutExpired | OtherError

datatype js_error = Thrown error_kind jsstring

fun String_of :: "js_error \<Rightarrow> jsstring" where
  "String_of (Thrown kind s) = s"

fun kind_of :: "js_error \<Rightarrow> error_kind" where
  "kind_of (Thrown kind s) = kind"

datatype body_read = BodyText jsstring | BodyFailed js_error

datatype fetch_outcome = Rejected js_error | Resolved nat body_read

type_synonym network = "fetch_call \<Rightarrow> fetch_outcome"

datatype jval = JString jsstring | JNumber nat

text \<open>
  A response is \<^verbatim>\<open>res.status(n).json({...})\<close> (\<open>Json\<close>, the fields in order; status 200
  when \<^verbatim>\<open>res.status\<close> is not called) or a \<^verbatim>\<open>text/plain\<close> body (\<open>Plain\<close>). \<open>Threw\<close> is a
  TypeError raised at \<^verbatim>\<open>.trim()\<close>, outside the \<^verbatim>\<open>try\<close>, before any response is written: the
  promise of the async handler is rejected and nothing in the module handles the
  rejection.
\<close>

datatype response = Json nat "(string \<times> jval) list" | Plain nat jsstring

datatype outcome = Sent response | Threw

definition truncation_marker :: jsstring where
  "truncation_marker = [0x0A, 0x0A] @ js ''...[truncated]''"

definition snippet :: "jsstring \<Rightarrow> jsstring" where
  "snippet text = (if length text > 2000 then take 2000 text @ truncation_marker else text)"

text \<open>
  The handler of \<^verbatim>\<open>GET /api/fetch\<close>. The result is the outcome and the list of the
  outbound requests that were made.
\<close>

definition api_fetch ::
  "(jsstring \<Rightarrow> jsstring) \<Rightarrow> network \<Rightarrow> query_value \<Rightarrow> outcome \<times> fetch_call list" where
  "api_fetch unicode_lower net q =
     (case q of
        QOther \<Rightarrow> (Threw, [])
      | _ \<Rightarrow>
        (let url = trim (case q of QString s \<Rightarrow> s | _ \<Rightarrow> []) in
         if url = [] then
           (Sent (Json 400 [(''error'', JString (js ''url parameter required''))]), [])
         else
           (let lowered = toLowerCase unicode_lower url in
            if includes_str lowered (js ''localhost'') \<or>
               includes_str lowered (js ''127.0.0.1'') \<or>
               includes_str lowered (js ''::1'')
            then
              (Sent (Json 403 [(''error'', JString (js ''local addresses are not allowed''))]), [])
            else if \<not> scheme_regex_test url then
              (Sent (Json 400 [(''error'', JString (js ''only http and https allowed''))]), [])
            else
              (let call = Fetch url (js ''follow'') 5000 in
               case net call of
                 Resolved status (BodyText text) \<Rightarrow>
                   (Sent (Json 200 [(''status'', JNumber status), (''url'', JString url),
                                    (''body'', JString (snippet text))]), [call])
               | Resolved status (BodyFailed e) \<Rightarrow>
                   (Sent (Json 500 [(''error'', JString (js ''fetch failed'')),
                                    (''detail'', JString (String_of e))]), [call])
               | Rejected e \<Rightarrow>
                   (Sent (Json 500 [(''error'', JString (js ''fetch failed'')),
                                    (''detail'', JString (String_of e))]), [call])))))"

text \<open>
  The Validation Policy is the decision taken by the two checks of the handler, in their
  order, on the trimmed, non-empty url.
\<close>

datatype decision = Forbidden | UnsupportedScheme | Allowed

definition forbidlisted :: "jsstring \<Rightarrow> bool" where
  "forbidlisted lowered =
     (includes_str lowered (js ''localhost'') \<or>
      includes_str lowered (js ''127.0.0.1'') \<or>
      includes_str lowered (js ''::1''))"

definition validate :: "(jsstring \<Rightarrow> jsstring) \<Rightarrow> jsstring \<Rightarrow> decision" where
  "validate unicode_lower url =
     (if forbidlisted (toLowerCase unicode_lower url) then Forbidden
      else if \<not> scheme_regex_test url then UnsupportedScheme
      else Allowed)"

section \<open>The internal service\<close>

text \<open>
  \<^verbatim>\<open>const FLAG = process.env.FLAG || 'FLAG{ssrf_decimal_wrap}'\<close>, evaluated once when the
  module is loaded; an empty string is falsy.
\<close>

definition FLAG :: "(string \<rightharpoonup> jsstring) \<Rightarrow> jsstring" where
  "FLAG env =
     (case env ''FLAG'' of
        None \<Rightarrow> js ''FLAG{ssrf_decimal_wrap}''
      | Some v \<Rightarrow> if v = [] then js ''FLAG{ssrf_decimal_wrap}'' else v)"

definition internal_flag :: "jsstring \<Rightarrow> response" where
  "internal_flag flag = Plain 200 (js ''admin-secret: '' @ flag @ [0x0A])"

section \<open>The process\<close>

text \<open>
  The module computes \<open>FLAG\<close> once, when it is loaded, and then serves requests. A request
  arrives at one of the two listeners, together with the state of the world at that
  time: the environment of the process as it is then, and the network. An unhandled
  rejection ends the process and with it both listeners: the requests that arrive later
  get no response.
\<close>

datatype request = GetInternalFlag | GetApiFetch query_value

datatype process = Running jsstring | Ended

definition start :: "(string \<rightharpoonup> jsstring) \<Rightarrow> process" where
  "start env = Running (FLAG env)"

definition handle ::
  "jsstring \<Rightarrow> (jsstring \<Rightarrow> jsstring) \<Rightarrow> network \<Rightarrow> request \<Rightarrow> outcome \<times> fetch_call list" where
  "handle flag unicode_lower net r =
     (case r of
        GetInternalFlag \<Rightarrow> (Sent (internal_flag flag), [])
      | GetApiFetch q \<Rightarrow> api_fetch unicode_lower net q)"

type_synonym arrival = "(string \<rightharpoonup> jsstring) \<times> network \<times> request"

fun serve ::
  "(jsstring \<Rightarrow> jsstring) \<Rightarrow> process \<Rightarrow> arrival list \<Rightarrow>
     (outcome \<times> fetch_call list) option list \<times> process" where
  "serve unicode_lower p [] = ([], p)"
| "serve unicode_lower Ended (a # as) =
     (case serve unicode_lower Ended as of (outs, p') \<Rightarrow> (None # outs, p'))"
| "serve unicode_lower (Running flag) ((env_now, net, r) # as) =
     (case handle flag unicode_lower net r of
        (out, calls) \<Rightarrow>
          (case serve unicode_lower (if out = Threw then Ended else Running flag) as of
             (outs, p') \<Rightarrow> (Some (out, calls) # outs, p')))"

definition run ::
  "(string \<rightharpoonup> jsstring) \<Rightarrow> (jsstring \<Rightarrow> jsstring) \<Rightarrow> arrival list \<Rightarrow>
     (outcome \<times> fetch_call list) option list \<times> process" where
  "run env unicode_lower as = serve unicode_lower (start env) as"

section \<open>Notions used in the statements\<close>

text \<open>The field \<open>k\<close> of a JSON response, if the outcome is one and has it.\<close>

fun json_field :: "string \<Rightarrow> outcome \<Rightarrow> jval option" where
  "json_field k (Sent (Json status fields)) = map_of fields k"
| "json_field k (Sent (Plain status text)) = None"
| "json_field k Threw = None"

text \<open>The error thrown when the outbound request failed.\<close>

definition failure_of :: "fetch_outcome \<Rightarrow> js_error option" where
  "failure_of r =
     (case r of
        Rejected e \<Rightarrow> Some e
      | Resolved status (BodyFailed e) \<Rightarrow> Some e
      | Resolved status (BodyText text) \<Rightarrow> None)"

text \<open>
  The characters of the numeric notations of an IPv4 address, in lower case: the digits,
  the hexadecimal letters \<open>a\<close>..\<open>f\<close>, the \<open>x\<close> of the prefix \<open>0x\<close> and the dot. The
  characters that can follow the host in a url: \<open>:\<close>, \<open>/\<close>, \<open>?\<close> and \<open>#\<close>.
\<close>

definition numeric_notation_char :: "jschar \<Rightarrow> bool" where
  "numeric_notation_char c =
     ((0x30 \<le> c \<and> c \<le> 0x39) \<or> (0x61 \<le> c \<and> c \<le> 0x66) \<or> c = 0x78 \<or> c = 0x2E)"

definition url_delimiter :: "jschar \<Rightarrow> bool" where
  "url_delimiter c = (c = 0x3A \<or> c = 0x2F \<or> c = 0x3F \<or> c = 0x23)"

text \<open>Sample worlds and a sample environment, for the concrete instances.\<close>

definition refusing :: network where
  "refusing call = Rejected (Thrown NetworkFailure (js ''FetchError: connect ECONNREFUSED''))"

definition timing_out :: network where
  "timing_out call = Rejected (Thrown TimeoutExpired (js ''FetchError: network timeout''))"

text \<open>
  The fetch library cannot parse the url \<^verbatim>\<open>http://\<close>, which has no host, and throws a
  TypeError before any request leaves.
\<close>

definition unparsable :: network where
  "unparsable call = Rejected (Thrown OtherError (js ''TypeError: Invalid URL''))"

definition serving :: "nat \<Rightarrow> jsstring \<Rightarrow> network" where
  "serving status text call = Resolved status (BodyText text)"

definition sample_env :: "string \<rightharpoonup> jsstring" where
  "sample_env = [''FLAG'' \<mapsto> js ''FLAG{s3cret}'']"


section \<open>Substrings\<close>

lemma includes_str_sublist: "includes_str s p \<longleftrightarrow> sublist p s"
  by (induction s) (simp_all add: sublist_Cons_right)

text \<open>The equations that evaluate the definitions on a concrete string.\<close>

lemmas eval_simps = js_def toLowerCase_def is_ascii_def ascii_lower_def ascii_upper_def
  is_white_space_def trim_def ci_match_def scheme_regex_test_def forbidlisted_def validate_def
  includes_str_sublist [symmetric]

lemma prefix_sep: "c \<notin> set p \<Longrightarrow> prefix p (zs @ c # ys) \<longleftrightarrow> prefix p zs"
  by (auto simp: prefix_append prefix_Cons)

text \<open>An occurrence of \<open>p\<close> cannot contain a character that is not in \<open>p\<close>.\<close>

lemma sublist_sep:
  "c \<notin> set p \<Longrightarrow> sublist p (xs @ c # ys) \<longleftrightarrow> sublist p xs \<or> sublist p ys"
proof (induction xs)
  case Nil
  then show ?case by (cases p) (auto simp: sublist_Cons_right prefix_Cons)
next
  case (Cons x xs)
  have "prefix p ((x # xs) @ c # ys) \<longleftrightarrow> prefix p (x # xs)"
    using Cons.prems by (rule prefix_sep)
  with Cons show ?case by (auto simp: sublist_Cons_right)
qed

text \<open>An occurrence of \<open>p\<close> starts at a character equal to the first one of \<open>p\<close>.\<close>

lemma sublist_skip:
  "p \<noteq> [] \<Longrightarrow> hd p \<notin> set xs \<Longrightarrow> sublist p (xs @ ys) \<longleftrightarrow> sublist p ys"
proof (induction xs)
  case Nil
  then show ?case by simp
next
  case (Cons x xs)
  then have "\<not> prefix p (x # xs @ ys)" by (cases p) auto
  with Cons show ?case by (auto simp: sublist_Cons_right)
qed

lemma sublist_dropWhile:
  "p \<noteq> [] \<Longrightarrow> \<not> P (hd p) \<Longrightarrow> sublist p (dropWhile P s) \<longleftrightarrow> sublist p s"
proof (induction s)
  case Nil
  then show ?case by simp
next
  case (Cons c cs)
  show ?case
  proof (cases "P c")
    case True
    with Cons.prems have "\<not> prefix p (c # cs)" by (cases p) auto
    with True Cons show ?thesis by (simp add: sublist_Cons_right)
  next
    case False
    then show ?thesis by simp
  qed
qed

section \<open>Trimming and lower case\<close>

lemma trim_Nil: "trim [] = []"
  by (simp add: trim_def)

lemma trim_white_space:
  assumes "list_all is_white_space raw"
  shows "trim raw = []"
proof -
  from assms have "dropWhile is_white_space raw = []"
    by (simp add: list_all_iff)
  then show ?thesis by (simp only: trim_def rev.simps dropWhile.simps)
qed

lemma trim_sublist:
  assumes "p \<noteq> []" "\<not> is_white_space (hd p)" "\<not> is_white_space (last p)"
  shows "sublist p (trim s) \<longleftrightarrow> sublist p s"
proof -
  have r: "rev p \<noteq> []" "\<not> is_white_space (hd (rev p))"
    using assms by (simp_all add: hd_rev)
  have "sublist p (trim s) \<longleftrightarrow>
        sublist (rev p) (dropWhile is_white_space (rev (dropWhile is_white_space s)))"
    unfolding trim_def by (subst sublist_rev [symmetric]) simp
  also have "\<dots> \<longleftrightarrow> sublist (rev p) (rev (dropWhile is_white_space s))"
    using r by (rule sublist_dropWhile)
  also have "\<dots> \<longleftrightarrow> sublist p (dropWhile is_white_space s)"
    by (rule sublist_rev)
  also have "\<dots> \<longleftrightarrow> sublist p s"
    using assms(1,2) by (rule sublist_dropWhile)
  finally show ?thesis .
qed

lemma ascii_lower_add:
  "0x41 \<le> c \<Longrightarrow> c \<le> 0x5A \<Longrightarrow> unat (c + 0x20 :: jschar) = unat c + 32"
  by (simp add: unat_word_ariths word_le_nat_alt)

lemma white_space_range: "is_white_space c \<Longrightarrow> unat c \<le> 32 \<or> 128 \<le> unat c"
  unfolding is_white_space_def word_le_nat_alt by (elim disjE) simp_all

lemma is_white_space_ascii_lower: "is_white_space (ascii_lower c) = is_white_space c"
proof (cases "0x41 \<le> c \<and> c \<le> 0x5A")
  case True
  then have u: "65 \<le> unat c" "unat c \<le> 90" "unat (c + 0x20) = unat c + 32"
    by (simp_all add: word_le_nat_alt ascii_lower_add)
  have "\<not> is_white_space c"
    using u(1,2) white_space_range [of c] by auto
  moreover have "\<not> is_white_space (c + 0x20)"
    using u white_space_range [of "c + 0x20"] by auto
  ultimately show ?thesis using True by (simp add: ascii_lower_def)
next
  case False
  then show ?thesis by (auto simp add: ascii_lower_def)
qed

lemma trim_map_ascii_lower: "trim (map ascii_lower s) = map ascii_lower (trim s)"
proof -
  have c: "is_white_space \<circ> ascii_lower = is_white_space"
    by (rule ext) (simp add: is_white_space_ascii_lower)
  show ?thesis
    by (simp add: trim_def dropWhile_map rev_map c)
qed

lemma list_all_trim: "list_all P s \<Longrightarrow> list_all P (trim s)"
proof -
  have "set (trim s) \<subseteq> set s"
    unfolding trim_def by (auto dest!: set_dropWhileD)
  then show "list_all P s \<Longrightarrow> list_all P (trim s)"
    by (auto simp: list_all_iff)
qed

lemma toLowerCase_trim_ascii:
  "list_all is_ascii s \<Longrightarrow> toLowerCase ul (trim s) = trim (toLowerCase ul s)"
  by (simp add: toLowerCase_def list_all_trim trim_map_ascii_lower)

lemma toLowerCase_Nil: "toLowerCase ul [] = []"
  by (simp add: toLowerCase_def)

section \<open>The regular expression\<close>

lemma ci_match_lower:
  "a \<in> set (js ''https://'') \<Longrightarrow> ci_match a c \<longleftrightarrow> is_ascii c \<and> ascii_lower c = a"
  unfolding ci_match_def is_ascii_def ascii_upper_def ascii_lower_def js_def
  by (auto simp: word_le_nat_alt word_less_nat_alt)

lemma ci_prefix_append:
  "ci_prefix (p @ q) s \<longleftrightarrow> ci_prefix p s \<and> ci_prefix q (drop (length p) s)"
  by (induction p s rule: ci_prefix.induct) auto

lemma ci_prefix_lowerD:
  "set p \<subseteq> set (js ''https://'') \<Longrightarrow> ci_prefix p s \<Longrightarrow>
   list_all is_ascii (take (length p) s) \<and> map ascii_lower (take (length p) s) = p"
proof (induction p s rule: ci_prefix.induct)
  case (1 s)
  show ?case by simp
next
  case (2 a as)
  from "2.prems"(2) show ?case by simp
next
  case (3 a as c cs)
  from "3.prems" have "ci_match a c" "ci_prefix as cs" "a \<in> set (js ''https://'')"
    "set as \<subseteq> set (js ''https://'')"
    by simp_all
  with "3.IH" show ?case by (simp add: ci_match_lower)
qed

lemma ci_prefix_lowerI:
  "set p \<subseteq> set (js ''https://'') \<Longrightarrow> list_all is_ascii b \<Longrightarrow> map ascii_lower b = p \<Longrightarrow>
   ci_prefix p (b @ r)"
proof (induction p "b @ r" arbitrary: b rule: ci_prefix.induct)
  case 1
  show ?case by simp
next
  case (2 a as)
  then show ?case by simp
next
  case (3 a as c cs)
  from "3.prems"(3) obtain d ds where b: "b = d # ds" by (cases b) simp_all
  with "3.hyps"(2) have cs: "c = d" "cs = ds @ r" by simp_all
  from "3.prems" b have f: "set as \<subseteq> set (js ''https://'')" "list_all is_ascii ds"
    "map ascii_lower ds = as" "a \<in> set (js ''https://'')" "is_ascii d" "ascii_lower d = a"
    by simp_all
  have "ci_prefix as (ds @ r)"
    using cs(2) f(1,2,3) by (rule "3.hyps"(1))
  moreover have "ci_match a d"
    using f(4,5,6) by (simp add: ci_match_lower)
  ultimately show ?case unfolding b by simp
qed

lemma ci_prefix_lower:
  assumes "set p \<subseteq> set (js ''https://'')"
  shows "ci_prefix p s \<longleftrightarrow> (\<exists>b r. s = b @ r \<and> list_all is_ascii b \<and> map ascii_lower b = p)"
proof
  assume "ci_prefix p s"
  with assms have "list_all is_ascii (take (length p) s) \<and>
      map ascii_lower (take (length p) s) = p"
    by (rule ci_prefix_lowerD)
  moreover have "s = take (length p) s @ drop (length p) s" by simp
  ultimately show "\<exists>b r. s = b @ r \<and> list_all is_ascii b \<and> map ascii_lower b = p"
    by blast
next
  assume "\<exists>b r. s = b @ r \<and> list_all is_ascii b \<and> map ascii_lower b = p"
  then obtain b r where "s = b @ r" "list_all is_ascii b" "map ascii_lower b = p"
    by blast
  with assms show "ci_prefix p s"
    by (simp add: ci_prefix_lowerI)
qed

lemma scheme_regex_test_prefix:
  "scheme_regex_test url \<longleftrightarrow>
     ci_prefix (js ''https://'') url \<or> ci_prefix (js ''http://'') url"
proof -
  have 1: "js ''https://'' = js ''http'' @ js ''s'' @ js ''://''"
    and 2: "js ''http://'' = js ''http'' @ js ''://''"
    by (simp_all add: js_def)
  have l: "length (js ''http'') = 4" "length (js ''s'') = 1"
    by (simp_all add: js_def)
  show ?thesis
    unfolding 1 2 ci_prefix_append scheme_regex_test_def Let_def l drop_drop
    by blast
qed

text \<open>
  The test of the scheme holds exactly for the strings that start with \<open>http://\<close> or
  \<open>https://\<close> written in ASCII letters of any case.
\<close>

lemma scheme_regex_test_iff:
  "scheme_regex_test url \<longleftrightarrow>
     (\<exists>s r. url = s @ r \<and> list_all is_ascii s \<and>
            (map ascii_lower s = js ''http://'' \<or> map ascii_lower s = js ''https://''))"
proof -
  have 1: "set (js ''http://'') \<subseteq> set (js ''https://'')"
    and 2: "set (js ''https://'') \<subseteq> set (js ''https://'')"
    by (simp_all add: js_def)
  show ?thesis
    unfolding scheme_regex_test_prefix ci_prefix_lower [OF 1] ci_prefix_lower [OF 2]
    by blast
qed

section \<open>The decision and the branches of the handler\<close>

lemma forbidlisted_sublist:
  "forbidlisted s \<longleftrightarrow>
     sublist (js ''localhost'') s \<or> sublist (js ''127.0.0.1'') s \<or> sublist (js ''::1'') s"
  by (simp add: forbidlisted_def includes_str_sublist)

lemma forbidlistedI:
  "p \<in> {js ''localhost'', js ''127.0.0.1'', js ''::1''} \<Longrightarrow> sublist p s \<Longrightarrow> forbidlisted s"
  by (auto simp: forbidlisted_sublist)

lemma local_pattern_facts:
  assumes "p \<in> {js ''localhost'', js ''127.0.0.1'', js ''::1''}"
  shows "p \<noteq> []" "\<not> is_white_space (hd p)" "\<not> is_white_space (last p)"
  using assms by (auto simp: js_def is_white_space_def)

lemma validate_cases:
  "validate ul url = Forbidden \<longleftrightarrow> forbidlisted (toLowerCase ul url)"
  "validate ul url = UnsupportedScheme \<longleftrightarrow>
     \<not> forbidlisted (toLowerCase ul url) \<and> \<not> scheme_regex_test url"
  "validate ul url = Allowed \<longleftrightarrow>
     \<not> forbidlisted (toLowerCase ul url) \<and> scheme_regex_test url"
  by (simp_all add: validate_def)

lemma scheme_regex_test_Nil: "\<not> scheme_regex_test []"
  by (simp add: scheme_regex_test_def js_def)

lemma api_fetch_Absent:
  "api_fetch ul net Absent =
     (Sent (Json 400 [(''error'', JString (js ''url parameter required''))]), [])"
  by (simp add: api_fetch_def trim_Nil)

lemma api_fetch_QOther: "api_fetch ul net QOther = (Threw, [])"
  by (simp add: api_fetch_def)


lemma api_fetch_missing:
  "trim raw = [] \<Longrightarrow>
   api_fetch ul net (QString raw) =
     (Sent (Json 400 [(''error'', JString (js ''url parameter required''))]), [])"
  by (simp add: api_fetch_def)

lemma api_fetch_forbidden:
  "forbidlisted (toLowerCase ul (trim raw)) \<Longrightarrow>
   api_fetch ul net (QString raw) =
     (Sent (Json 403 [(''error'', JString (js ''local addresses are not allowed''))]), [])"
  by (auto simp: api_fetch_def forbidlisted_def Let_def toLowerCase_Nil js_def)

lemma api_fetch_unsupported:
  "trim raw \<noteq> [] \<Longrightarrow> validate ul (trim raw) = UnsupportedScheme \<Longrightarrow>
   api_fetch ul net (QString raw) =
     (Sent (Json 400 [(''error'', JString (js ''only http and https allowed''))]), [])"
  by (auto simp: api_fetch_def validate_def forbidlisted_def Let_def split: if_splits)

lemma api_fetch_allowed:
  "trim raw \<noteq> [] \<Longrightarrow> validate ul (trim raw) = Allowed \<Longrightarrow>
   api_fetch ul net (QString raw) =
     (case net (Fetch (trim raw) (js ''follow'') 5000) of
        Resolved status (BodyText text) \<Rightarrow>
          (Sent (Json 200 [(''status'', JNumber status), (''url'', JString (trim raw)),
                           (''body'', JString (snippet text))]),
           [Fetch (trim raw) (js ''follow'') 5000])
      | Resolved status (BodyFailed e) \<Rightarrow>
          (Sent (Json 500 [(''error'', JString (js ''fetch failed'')),
                           (''detail'', JString (String_of e))]),
           [Fetch (trim raw) (js ''follow'') 5000])
      | Rejected e \<Rightarrow>
          (Sent (Json 500 [(''error'', JString (js ''fetch failed'')),
                           (''detail'', JString (String_of e))]),
           [Fetch (trim raw) (js ''follow'') 5000]))"
  by (auto simp: api_fetch_def validate_def forbidlisted_def Let_def split: if_splits)

lemma api_fetch_calls:
  "snd (api_fetch ul net q) =
     (case q of
        QString raw \<Rightarrow>
          if validate ul (trim raw) = Allowed then [Fetch (trim raw) (js ''follow'') 5000] else []
      | _ \<Rightarrow> [])"
  by (auto simp: api_fetch_def validate_def forbidlisted_def Let_def scheme_regex_test_Nil
      trim_Nil split: query_value.splits fetch_outcome.splits body_read.splits)

lemma api_fetch_200:
  assumes "api_fetch ul net q = (Sent (Json 200 fields), calls)"
  shows "\<exists>raw status text. q = QString raw \<and> trim raw \<noteq> [] \<and>
           validate ul (trim raw) = Allowed \<and>
           net (Fetch (trim raw) (js ''follow'') 5000) = Resolved status (BodyText text) \<and>
           fields = [(''status'', JNumber status), (''url'', JString (trim raw)),
                     (''body'', JString (snippet text))] \<and>
           calls = [Fetch (trim raw) (js ''follow'') 5000]"
proof (cases q)
  case Absent
  with assms show ?thesis by (simp add: api_fetch_Absent)
next
  case (QString raw)
  show ?thesis
  proof (cases "trim raw = []")
    case True
    with assms QString show ?thesis by (simp add: api_fetch_missing)
  next
    case False
    show ?thesis
    proof (cases "validate ul (trim raw)")
      case Forbidden
      with assms QString show ?thesis
        by (simp add: validate_cases api_fetch_forbidden)
    next
      case UnsupportedScheme
      with assms QString False show ?thesis by (simp add: api_fetch_unsupported)
    next
      case Allowed
      with assms QString False show ?thesis
        by (auto simp: api_fetch_allowed split: fetch_outcome.splits body_read.splits)
    qed
  qed
next
  case QOther
  with assms show ?thesis by (simp add: api_fetch_QOther)
qed

lemma json_field_body_snippet:
  "json_field ''body'' (fst (api_fetch ul net q)) = Some v \<Longrightarrow> \<exists>text. v = JString (snippet text)"
  by (auto simp: api_fetch_def Let_def
      split: query_value.splits if_splits fetch_outcome.splits body_read.splits)

section \<open>Truncation\<close>

lemma length_truncation_marker: "length truncation_marker = 16"
  by (simp add: truncation_marker_def js_def)

lemma snippet_short: "length text \<le> 2000 \<Longrightarrow> snippet text = text"
  by (simp add: snippet_def)

lemma length_snippet: "length (snippet text) \<le> 2000 + length truncation_marker"
  by (simp add: snippet_def)

lemma snippet_cut_iff:
  "snippet text = take 2000 text @ truncation_marker \<longleftrightarrow> 2000 < length text"
  by (auto simp: snippet_def truncation_marker_def)

section \<open>Numeric hosts\<close>

lemma numeric_notation_char_not:
  "numeric_notation_char c \<Longrightarrow> c \<noteq> 0x6C \<and> c \<noteq> 0x3A"
  by (auto simp: numeric_notation_char_def)

lemma numeric_host_skip:
  assumes "list_all numeric_notation_char host"
  shows "sublist (js ''localhost'') (host @ rest) \<longleftrightarrow> sublist (js ''localhost'') rest"
    and "sublist (js ''::1'') (host @ rest) \<longleftrightarrow> sublist (js ''::1'') rest"
proof -
  have "0x6C \<notin> set host" "0x3A \<notin> set host"
    using assms by (auto simp: list_all_iff dest: numeric_notation_char_not)
  then show "sublist (js ''localhost'') (host @ rest) \<longleftrightarrow> sublist (js ''localhost'') rest"
    and "sublist (js ''::1'') (host @ rest) \<longleftrightarrow> sublist (js ''::1'') rest"
    by (simp_all add: sublist_skip js_def)
qed

lemma dotted_quad_across_delimiter:
  assumes "list_all url_delimiter (take 1 rest)"
    and "sublist (js ''127.0.0.1'') (host @ rest)"
  shows "sublist (js ''127.0.0.1'') host \<or> sublist (js ''127.0.0.1'') rest"
proof (cases rest)
  case Nil
  with assms(2) show ?thesis by simp
next
  case (Cons d r)
  with assms(1) have "d \<notin> set (js ''127.0.0.1'')"
    by (auto simp: url_delimiter_def js_def)
  with assms(2) Cons have "sublist (js ''127.0.0.1'') host \<or> sublist (js ''127.0.0.1'') r"
    by (simp add: sublist_sep)
  with Cons show ?thesis by (auto simp: sublist_Cons_right)
qed

lemma scheme_not_local:
  assumes "sch = js ''http://'' \<or> sch = js ''https://''"
    and "p \<in> {js ''localhost'', js ''127.0.0.1'', js ''::1''}"
  shows "sublist p (sch @ s) \<longleftrightarrow> sublist p s"
proof -
  obtain s0 where s0: "sch = s0 @ [0x2F]" "s0 = js ''http:/'' \<or> s0 = js ''https:/''"
    using assms(1) by (auto simp: js_def)
  have "0x2F \<notin> set p" using assms(2) by (auto simp: js_def)
  then have "sublist p (s0 @ 0x2F # s) \<longleftrightarrow> sublist p s0 \<or> sublist p s"
    by (rule sublist_sep)
  moreover have "\<not> sublist p s0"
    using s0(2) assms(2) by (auto simp: js_def includes_str_sublist [symmetric])
  ultimately show ?thesis using s0(1) by simp
qed

section \<open>The run of the process\<close>




lemma serve_length: "length (fst (serve ul p as)) = length as"
  by (induction ul p as rule: serve.induct) (auto split: prod.splits)







section \<open>The claims\<close>

subsection \<open>The forbidlist\<close>

text \<open>
  C1. Let \<open>p\<close> be one of the literals \<open>localhost\<close>, \<open>127.0.0.1\<close> and \<open>::1\<close>. Every url
  whose lowercased form contains \<open>p\<close> is decided forbidden. The handler trims the
  parameter and decides on the trimmed url: when the lowercased trimmed url contains
  \<open>p\<close>, the response is 403 with the body \<open>{error: "local addresses are not allowed"}\<close> and
  no outbound request is made. For a parameter of ASCII characters the same holds when
  the lowercased parameter itself contains \<open>p\<close>, since trimming removes none of it.
\<close>

theorem local_url_forbidden:
  assumes "p \<in> {js ''localhost'', js ''127.0.0.1'', js ''::1''}"
  shows "(sublist p (toLowerCase ul url) \<longrightarrow> validate ul url = Forbidden) \<and>
         (sublist p (toLowerCase ul (trim raw)) \<longrightarrow>
            api_fetch ul net (QString raw) =
              (Sent (Json 403 [(''error'', JString (js ''local addresses are not allowed''))]), [])) \<and>
         (list_all is_ascii raw \<and> sublist p (toLowerCase ul raw) \<longrightarrow>
            api_fetch ul net (QString raw) =
              (Sent (Json 403 [(''error'', JString (js ''local addresses are not allowed''))]), []))"
proof (intro conjI impI)
  assume "sublist p (toLowerCase ul url)"
  with assms have "forbidlisted (toLowerCase ul url)" by (rule forbidlistedI)
  then show "validate ul url = Forbidden" by (simp add: validate_def)
next
  assume "sublist p (toLowerCase ul (trim raw))"
  with assms have "forbidlisted (toLowerCase ul (trim raw))" by (rule forbidlistedI)
  then show "api_fetch ul net (QString raw) =
      (Sent (Json 403 [(''error'', JString (js ''local addresses are not allowed''))]), [])"
    by (rule api_fetch_forbidden)
next
  assume a: "list_all is_ascii raw \<and> sublist p (toLowerCase ul raw)"
  then have "sublist p (trim (toLowerCase ul raw))"
    using local_pattern_facts [OF assms] by (simp add: trim_sublist)
  with a have "sublist p (toLowerCase ul (trim raw))"
    by (simp add: toLowerCase_trim_ascii)
  with assms have "forbidlisted (toLowerCase ul (trim raw))" by (rule forbidlistedI)
  then show "api_fetch ul net (QString raw) =
      (Sent (Json 403 [(''error'', JString (js ''local addresses are not allowed''))]), [])"
    by (rule api_fetch_forbidden)
qed

theorem local_url_forbidden_witness:
  "js ''127.0.0.1'' \<in> {js ''localhost'', js ''127.0.0.1'', js ''::1''} \<and>
   sublist (js ''127.0.0.1'') (toLowerCase id (js ''http://127.0.0.1:8000/internal/flag'')) \<and>
   validate id (js ''http://127.0.0.1:8000/internal/flag'') = Forbidden \<and>
   js ''localhost'' \<in> {js ''localhost'', js ''127.0.0.1'', js ''::1''} \<and>
   list_all is_ascii (js '' HTTP://LocalHost:8000/ '') \<and>
   sublist (js ''localhost'') (toLowerCase id (js '' HTTP://LocalHost:8000/ '')) \<and>
   api_fetch id refusing (QString (js '' HTTP://LocalHost:8000/ '')) =
     (Sent (Json 403 [(''error'', JString (js ''local addresses are not allowed''))]), [])"
proof -
  have m: "js ''127.0.0.1'' \<in> {js ''localhost'', js ''127.0.0.1'', js ''::1''}"
          "js ''localhost'' \<in> {js ''localhost'', js ''127.0.0.1'', js ''::1''}"
    by simp_all
  have 1: "sublist (js ''127.0.0.1'') (toLowerCase id (js ''http://127.0.0.1:8000/internal/flag''))"
    by (simp add: eval_simps)
  have 2: "list_all is_ascii (js '' HTTP://LocalHost:8000/ '') \<and>
           sublist (js ''localhost'') (toLowerCase id (js '' HTTP://LocalHost:8000/ ''))"
    by (simp add: eval_simps)
  show ?thesis
    using m 1 2
      local_url_forbidden [OF m(1), of id "js ''http://127.0.0.1:8000/internal/flag''"]
      local_url_forbidden [OF m(2), of id _ "js '' HTTP://LocalHost:8000/ ''" refusing]
    by blast
qed

subsection \<open>Numeric notations of the loopback address\<close>

text \<open>
  The decision is taken on the whole url string, so a numeric host does not make a url
  allowed by itself: with \<open>localhost\<close> in the path, the url with the decimal host is
  forbidden, and with another scheme it is rejected for the scheme.
\<close>

theorem numeric_host_counterexample:
  "validate id (js ''http://2130706433/localhost'') = Forbidden \<and>
   validate id (js ''ftp://2130706433/'') = UnsupportedScheme"
  by (simp add: eval_simps)

text \<open>
  C2, amended. Let the url pass the test of the scheme, and let its lowercased form be
  \<open>http://\<close> or \<open>https://\<close>, directly followed by a host written in numeric notation (digits,
  hexadecimal letters, \<open>x\<close> and dots) that does not contain the literal \<open>127.0.0.1\<close>, then
  a remainder that is empty or starts with \<open>:\<close>, \<open>/\<close>, \<open>?\<close> or \<open>#\<close> and contains none of
  the three forbidden literals. Then the url is decided allowed. The decimal, octal and
  hexadecimal notations of 127.0.0.1 (\<open>2130706433\<close>, \<open>0177.0.0.1\<close>, \<open>0x7f.0x0.0x0.0x1\<close>) are
  such hosts: the check compares substrings and resolves or normalises nothing.
\<close>

theorem numeric_host_allowed:
  assumes "scheme_regex_test url"
    and "toLowerCase ul url = sch @ host @ rest"
    and "sch = js ''http://'' \<or> sch = js ''https://''"
    and "list_all numeric_notation_char host"
    and "\<not> sublist (js ''127.0.0.1'') host"
    and "list_all url_delimiter (take 1 rest)"
    and "\<not> sublist (js ''localhost'') rest"
    and "\<not> sublist (js ''127.0.0.1'') rest"
    and "\<not> sublist (js ''::1'') rest"
  shows "validate ul url = Allowed"
proof -
  have "\<not> sublist (js ''localhost'') (sch @ host @ rest)"
    using assms(3,4,7) by (simp add: scheme_not_local numeric_host_skip)
  moreover have "\<not> sublist (js ''::1'') (sch @ host @ rest)"
    using assms(3,4,9) by (simp add: scheme_not_local numeric_host_skip)
  moreover have "\<not> sublist (js ''127.0.0.1'') (sch @ host @ rest)"
    using assms(3,5,8) dotted_quad_across_delimiter [OF assms(6)]
    by (auto simp: scheme_not_local)
  ultimately have "\<not> forbidlisted (toLowerCase ul url)"
    by (simp add: forbidlisted_sublist assms(2))
  with assms(1) show ?thesis by (simp add: validate_cases)
qed

theorem numeric_host_allowed_witness:
  "scheme_regex_test (js ''http://2130706433:8000/internal/flag'') \<and>
   toLowerCase id (js ''http://2130706433:8000/internal/flag'') =
     js ''http://'' @ js ''2130706433'' @ js '':8000/internal/flag'' \<and>
   list_all numeric_notation_char (js ''2130706433'') \<and>
   \<not> sublist (js ''127.0.0.1'') (js ''2130706433'') \<and>
   list_all url_delimiter (take 1 (js '':8000/internal/flag'')) \<and>
   \<not> sublist (js ''localhost'') (js '':8000/internal/flag'') \<and>
   \<not> sublist (js ''127.0.0.1'') (js '':8000/internal/flag'') \<and>
   \<not> sublist (js ''::1'') (js '':8000/internal/flag'') \<and>
   validate id (js ''http://2130706433:8000/internal/flag'') = Allowed"
proof -
  have 1: "scheme_regex_test (js ''http://2130706433:8000/internal/flag'')"
    by (simp add: eval_simps)
  have 2: "toLowerCase id (js ''http://2130706433:8000/internal/flag'') =
     js ''http://'' @ js ''2130706433'' @ js '':8000/internal/flag''"
    by (simp add: eval_simps)
  have 3: "js ''http://'' = js ''http://'' \<or> js ''http://'' = js ''https://''"
    by simp
  have 4: "list_all numeric_notation_char (js ''2130706433'')"
    by (simp add: js_def numeric_notation_char_def)
  have 5: "\<not> sublist (js ''127.0.0.1'') (js ''2130706433'')"
    by (simp add: eval_simps)
  have 6: "list_all url_delimiter (take 1 (js '':8000/internal/flag''))"
    by (simp add: js_def url_delimiter_def)
  have 7: "\<not> sublist (js ''localhost'') (js '':8000/internal/flag'')"
    by (simp add: eval_simps)
  have 8: "\<not> sublist (js ''127.0.0.1'') (js '':8000/internal/flag'')"
    by (simp add: eval_simps)
  have 9: "\<not> sublist (js ''::1'') (js '':8000/internal/flag'')"
    by (simp add: eval_simps)
  show ?thesis
    using 1 2 4 5 6 7 8 9 numeric_host_allowed [OF 1 2 3 4 5 6 7 8 9]
    by (simp only: simp_thms)
qed

text \<open>The three notations named by the specification, and a mixed one, evaluated.\<close>

lemma numeric_notation_examples:
  "validate id (js ''http://2130706433:8000/internal/flag'') = Allowed"
  "validate id (js ''http://0177.0.0.1:8000/internal/flag'') = Allowed"
  "validate id (js ''http://0x7f.0x0.0x0.0x1:8000/internal/flag'') = Allowed"
  "validate id (js ''HTTPS://0X7F.0.0.1/'') = Allowed"
  "validate id (js ''2130706433'') = UnsupportedScheme"
  by (simp_all add: eval_simps)

subsection \<open>The gate before the outbound request\<close>

text \<open>
  C3. An outbound request of the handler is a request for the trimmed url with the
  options of the source, and it is made only when that url is decided allowed. A url
  decided forbidden is answered with 403 and one with an unsupported scheme with 400,
  in both cases with no outbound request; no request other than a string url that is
  allowed leads to one.
\<close>

theorem fetch_only_when_allowed:
  "(c \<in> set (snd (api_fetch ul net q)) \<longrightarrow>
      (\<exists>raw. q = QString raw \<and> c = Fetch (trim raw) (js ''follow'') 5000 \<and>
             validate ul (trim raw) = Allowed)) \<and>
   (validate ul (trim raw) = Forbidden \<longrightarrow>
      api_fetch ul net (QString raw) =
        (Sent (Json 403 [(''error'', JString (js ''local addresses are not allowed''))]), [])) \<and>
   (trim raw \<noteq> [] \<and> validate ul (trim raw) = UnsupportedScheme \<longrightarrow>
      api_fetch ul net (QString raw) =
        (Sent (Json 400 [(''error'', JString (js ''only http and https allowed''))]), [])) \<and>
   (validate ul (trim raw) \<noteq> Allowed \<longrightarrow> snd (api_fetch ul net (QString raw)) = [])"
  by (auto simp: api_fetch_calls api_fetch_forbidden api_fetch_unsupported validate_cases(1)
      split: query_value.splits if_splits)

theorem fetch_only_when_allowed_witness:
  "Fetch (js ''http://example.com/'') (js ''follow'') 5000
     \<in> set (snd (api_fetch id refusing (QString (js ''http://example.com/'')))) \<and>
   validate id (trim (js ''http://example.com/'')) = Allowed \<and>
   validate id (trim (js ''http://localhost/'')) = Forbidden \<and>
   api_fetch id refusing (QString (js ''http://localhost/'')) =
        (Sent (Json 403 [(''error'', JString (js ''local addresses are not allowed''))]), []) \<and>
   trim (js ''ftp://example.com/'') \<noteq> [] \<and>
   validate id (trim (js ''ftp://example.com/'')) = UnsupportedScheme \<and>
   api_fetch id refusing (QString (js ''ftp://example.com/'')) =
        (Sent (Json 400 [(''error'', JString (js ''only http and https allowed''))]), []) \<and>
   snd (api_fetch id refusing (QString (js ''ftp://example.com/''))) = []"
proof -
  have 1: "Fetch (js ''http://example.com/'') (js ''follow'') 5000
     \<in> set (snd (api_fetch id refusing (QString (js ''http://example.com/''))))"
    by (simp add: api_fetch_def refusing_def eval_simps)
  have 2: "validate id (trim (js ''http://localhost/'')) = Forbidden"
    by (simp add: eval_simps)
  have 3: "trim (js ''ftp://example.com/'') \<noteq> [] \<and>
           validate id (trim (js ''ftp://example.com/'')) = UnsupportedScheme"
    by (simp add: eval_simps)
  show ?thesis
    using 1 2 3
      fetch_only_when_allowed [of "Fetch (js ''http://example.com/'') (js ''follow'') 5000" id
        refusing "QString (js ''http://example.com/'')" "js ''http://localhost/''"]
      fetch_only_when_allowed [of _ id refusing _ "js ''ftp://example.com/''"]
    by auto
qed

subsection \<open>Truncation of the body\<close>

text \<open>
  C4. A fetched text of more than 2000 characters is returned as its first 2000
  characters followed by the truncation marker, and a text of at most 2000 characters is
  returned unchanged. The field \<open>body\<close> of the response to an allowed url whose fetch
  succeeded is the text so treated, and the field \<open>body\<close> of any response is never longer
  than 2000 characters plus the marker.
\<close>

theorem body_truncation:
  "(2000 < length text \<longrightarrow> snippet text = take 2000 text @ truncation_marker) \<and>
   (length text \<le> 2000 \<longrightarrow> snippet text = text) \<and>
   (trim raw \<noteq> [] \<and> validate ul (trim raw) = Allowed \<and>
    net (Fetch (trim raw) (js ''follow'') 5000) = Resolved status (BodyText text) \<longrightarrow>
      json_field ''body'' (fst (api_fetch ul net (QString raw))) = Some (JString (snippet text))) \<and>
   (json_field ''body'' (fst (api_fetch ul net q)) = Some (JString b) \<longrightarrow>
      length b \<le> 2000 + length truncation_marker)"
proof (intro conjI impI)
  assume "json_field ''body'' (fst (api_fetch ul net q)) = Some (JString b)"
  then obtain t where "b = snippet t"
    by (auto dest: json_field_body_snippet)
  then show "length b \<le> 2000 + length truncation_marker"
    by (simp add: length_snippet)
qed (simp_all add: snippet_def api_fetch_allowed)

theorem body_truncation_witness:
  "2000 < length (replicate 2500 (0x61 :: jschar)) \<and>
   snippet (replicate 2500 0x61) = replicate 2000 0x61 @ truncation_marker \<and>
   length (snippet (replicate 2500 0x61)) = 2016 \<and>
   length (replicate 1500 (0x61 :: jschar)) \<le> 2000 \<and>
   snippet (replicate 1500 0x61) = replicate 1500 0x61 \<and>
   trim (js ''http://example.com/'') \<noteq> [] \<and>
   validate id (trim (js ''http://example.com/'')) = Allowed \<and>
   json_field ''body'' (fst (api_fetch id (serving 200 (replicate 2500 0x61))
                               (QString (js ''http://example.com/'')))) =
     Some (JString (replicate 2000 0x61 @ truncation_marker)) \<and>
   length (replicate 2000 (0x61 :: jschar) @ truncation_marker) \<le> 2000 + length truncation_marker"
proof -
  have v: "trim (js ''http://example.com/'') \<noteq> [] \<and>
           validate id (trim (js ''http://example.com/'')) = Allowed"
    by (simp add: eval_simps)
  have n: "serving 200 (replicate 2500 0x61)
             (Fetch (trim (js ''http://example.com/'')) (js ''follow'') 5000) =
           Resolved 200 (BodyText (replicate 2500 0x61))"
    by (simp add: serving_def)
  have l: "2000 < length (replicate 2500 (0x61 :: jschar))" by simp
  note long = body_truncation [of "replicate 2500 0x61" "js ''http://example.com/''" id
      "serving 200 (replicate 2500 0x61)" 200 "QString (js ''http://example.com/'')"
      "replicate 2000 0x61 @ truncation_marker"]
  note short = body_truncation [of "replicate 1500 0x61"]
  have s: "snippet (replicate 2500 0x61) = replicate 2000 0x61 @ truncation_marker"
    using long l by simp
  show ?thesis
    using long short v n l by (simp add: s length_truncation_marker)
qed

text \<open>
  The response to a successful fetch of a text of 2500 characters: the body is cut, and
  the response has no field \<open>truncated\<close>.
\<close>

theorem truncated_field_counterexample:
  "fst (api_fetch id (serving 200 (replicate 2500 0x61)) (QString (js ''http://example.com/''))) =
     Sent (Json 200 [(''status'', JNumber 200), (''url'', JString (js ''http://example.com/'')),
                     (''body'', JString (replicate 2000 0x61 @ truncation_marker))]) \<and>
   json_field ''truncated''
     (fst (api_fetch id (serving 200 (replicate 2500 0x61)) (QString (js ''http://example.com/'')))) =
     None"
proof -
  have v: "trim (js ''http://example.com/'') = js ''http://example.com/''"
    "validate id (js ''http://example.com/'') = Allowed"
    by (simp_all add: eval_simps)
  have n: "js ''http://example.com/'' \<noteq> []" by (simp add: js_def)
  show ?thesis
    using api_fetch_allowed [of "js ''http://example.com/''" id "serving 200 (replicate 2500 0x61)"] v n
    by (simp add: serving_def snippet_def)
qed

text \<open>
  C5, amended. Every response with status 200 of the handler has exactly the fields
  \<open>status\<close>, \<open>url\<close> and \<open>body\<close>, and no field \<open>truncated\<close>. Its body is the first 2000
  characters of the fetched text followed by the marker exactly when the text is longer
  than 2000 characters, and it is the text unchanged when the text has at most 2000
  characters.
\<close>

theorem success_response_fields:
  assumes "api_fetch ul net q = (Sent (Json 200 fields), calls)"
  shows "\<exists>raw status text.
           q = QString raw \<and>
           net (Fetch (trim raw) (js ''follow'') 5000) = Resolved status (BodyText text) \<and>
           fields = [(''status'', JNumber status), (''url'', JString (trim raw)),
                     (''body'', JString (snippet text))] \<and>
           map_of fields ''truncated'' = None \<and>
           (snippet text = take 2000 text @ truncation_marker \<longleftrightarrow> 2000 < length text) \<and>
           (length text \<le> 2000 \<longrightarrow> snippet text = text)"
proof -
  from api_fetch_200 [OF assms] obtain raw status t where
    "q = QString raw"
    "net (Fetch (trim raw) (js ''follow'') 5000) = Resolved status (BodyText t)"
    "fields = [(''status'', JNumber status), (''url'', JString (trim raw)),
               (''body'', JString (snippet t))]"
    by blast
  then show ?thesis
    by (simp add: snippet_cut_iff snippet_short)
qed

theorem success_response_fields_witness:
  "api_fetch id (serving 200 (replicate 2500 0x61)) (QString (js ''http://example.com/'')) =
     (Sent (Json 200 [(''status'', JNumber 200), (''url'', JString (js ''http://example.com/'')),
                      (''body'', JString (replicate 2000 0x61 @ truncation_marker))]),
      [Fetch (js ''http://example.com/'') (js ''follow'') 5000]) \<and>
   map_of [(''status'', JNumber 200), (''url'', JString (js ''http://example.com/'')),
           (''body'', JString (replicate 2000 0x61 @ truncation_marker))] ''truncated'' = None"
proof -
  have v: "trim (js ''http://example.com/'') = js ''http://example.com/''"
    "validate id (js ''http://example.com/'') = Allowed"
    by (simp_all add: eval_simps)
  have n: "js ''http://example.com/'' \<noteq> []" by (simp add: js_def)
  have r: "api_fetch id (serving 200 (replicate 2500 0x61)) (QString (js ''http://example.com/'')) =
     (Sent (Json 200 [(''status'', JNumber 200), (''url'', JString (js ''http://example.com/'')),
                      (''body'', JString (replicate 2000 0x61 @ truncation_marker))]),
      [Fetch (js ''http://example.com/'') (js ''follow'') 5000])"
    using api_fetch_allowed [of "js ''http://example.com/''" id "serving 200 (replicate 2500 0x61)"] v n
    by (simp add: serving_def snippet_def)
  show ?thesis
    using r success_response_fields [OF r] by blast
qed

subsection \<open>The order of the two checks\<close>

text \<open>
  C7. The forbidlist is checked before the scheme. Let \<open>p\<close> be one of the three forbidden
  literals. A url whose lowercased form contains \<open>p\<close> and which fails the test of the
  scheme (such as \<open>ftp://localhost/\<close>) is decided forbidden, and the handler answers 403
  with \<open>"local addresses are not allowed"\<close>, not 400. The rejection of the scheme applies
  only to urls that pass the forbidlist: a url decided unsupported-scheme, and a request
  answered 400 with \<open>"only http and https allowed"\<close>, contain none of the literals.
\<close>

theorem forbidlist_before_scheme:
  assumes "p \<in> {js ''localhost'', js ''127.0.0.1'', js ''::1''}"
  shows "(sublist p (toLowerCase ul url) \<and> \<not> scheme_regex_test url \<longrightarrow>
            validate ul url = Forbidden) \<and>
         (sublist p (toLowerCase ul (trim raw)) \<and> \<not> scheme_regex_test (trim raw) \<longrightarrow>
            api_fetch ul net (QString raw) =
              (Sent (Json 403 [(''error'', JString (js ''local addresses are not allowed''))]), [])) \<and>
         (validate ul url = UnsupportedScheme \<longrightarrow> \<not> sublist p (toLowerCase ul url)) \<and>
         (api_fetch ul net q =
            (Sent (Json 400 [(''error'', JString (js ''only http and https allowed''))]), calls) \<longrightarrow>
          (\<exists>raw'. q = QString raw' \<and> \<not> sublist p (toLowerCase ul (trim raw')) \<and>
                  \<not> scheme_regex_test (trim raw')))"
proof (intro conjI impI)
  assume "sublist p (toLowerCase ul url) \<and> \<not> scheme_regex_test url"
  then show "validate ul url = Forbidden"
    using assms by (simp add: validate_cases forbidlistedI)
next
  assume "sublist p (toLowerCase ul (trim raw)) \<and> \<not> scheme_regex_test (trim raw)"
  then have "forbidlisted (toLowerCase ul (trim raw))"
    using assms by (simp add: forbidlistedI)
  then show "api_fetch ul net (QString raw) =
      (Sent (Json 403 [(''error'', JString (js ''local addresses are not allowed''))]), [])"
    by (rule api_fetch_forbidden)
next
  assume "validate ul url = UnsupportedScheme"
  then show "\<not> sublist p (toLowerCase ul url)"
    using assms by (auto simp: validate_cases forbidlisted_sublist)
next
  assume a: "api_fetch ul net q =
    (Sent (Json 400 [(''error'', JString (js ''only http and https allowed''))]), calls)"
  then obtain raw' where q: "q = QString raw'"
    by (cases q) (auto simp: api_fetch_Absent api_fetch_QOther js_def)
  have "\<not> forbidlisted (toLowerCase ul (trim raw')) \<and> \<not> scheme_regex_test (trim raw')"
    using a unfolding q api_fetch_def forbidlisted_def Let_def
    by (auto simp: js_def split: if_splits fetch_outcome.splits body_read.splits)
  then show "\<exists>raw'. q = QString raw' \<and> \<not> sublist p (toLowerCase ul (trim raw')) \<and>
                  \<not> scheme_regex_test (trim raw')"
    using q assms by (auto simp: forbidlisted_sublist)
qed

theorem forbidlist_before_scheme_witness:
  "js ''localhost'' \<in> {js ''localhost'', js ''127.0.0.1'', js ''::1''} \<and>
   sublist (js ''localhost'') (toLowerCase id (js ''ftp://localhost/'')) \<and>
   \<not> scheme_regex_test (js ''ftp://localhost/'') \<and>
   validate id (js ''ftp://localhost/'') = Forbidden \<and>
   api_fetch id refusing (QString (js ''ftp://localhost/'')) =
     (Sent (Json 403 [(''error'', JString (js ''local addresses are not allowed''))]), []) \<and>
   validate id (js ''ftp://example.com/'') = UnsupportedScheme \<and>
   \<not> sublist (js ''localhost'') (toLowerCase id (js ''ftp://example.com/''))"
proof -
  have m: "js ''localhost'' \<in> {js ''localhost'', js ''127.0.0.1'', js ''::1''}"
    by simp
  have 1: "sublist (js ''localhost'') (toLowerCase id (js ''ftp://localhost/'')) \<and>
           \<not> scheme_regex_test (js ''ftp://localhost/'')"
    by (simp add: eval_simps)
  have 2: "trim (js ''ftp://localhost/'') = js ''ftp://localhost/''"
    by (simp add: eval_simps)
  have 3: "validate id (js ''ftp://example.com/'') = UnsupportedScheme"
    by (simp add: eval_simps)
  show ?thesis
    using m 1 2 3
      forbidlist_before_scheme [OF m, of id "js ''ftp://localhost/''" "js ''ftp://localhost/''" refusing]
      forbidlist_before_scheme [OF m, of id "js ''ftp://example.com/''"]
    by simp
qed

subsection \<open>Failure and success of the fetch\<close>

text \<open>
  The url \<open>http://\<close> passes both checks. The fetch library throws a TypeError for it,
  which is neither a failure of the network nor the expiry of the timeout, and the
  handler answers 500 with \<open>"fetch failed"\<close> all the same.
\<close>

theorem fetch_failed_counterexample:
  "validate id (trim (js ''http://'')) = Allowed \<and>
   unparsable (Fetch (js ''http://'') (js ''follow'') 5000) =
     Rejected (Thrown OtherError (js ''TypeError: Invalid URL'')) \<and>
   kind_of (Thrown OtherError (js ''TypeError: Invalid URL'')) \<noteq> NetworkFailure \<and>
   kind_of (Thrown OtherError (js ''TypeError: Invalid URL'')) \<noteq> TimeoutExpired \<and>
   api_fetch id unparsable (QString (js ''http://'')) =
     (Sent (Json 500 [(''error'', JString (js ''fetch failed'')),
                      (''detail'', JString (js ''TypeError: Invalid URL''))]),
      [Fetch (js ''http://'') (js ''follow'') 5000])"
proof -
  have v: "trim (js ''http://'') = js ''http://''" "validate id (js ''http://'') = Allowed"
    by (simp_all add: eval_simps)
  have n: "js ''http://'' \<noteq> []" by (simp add: js_def)
  show ?thesis
    using api_fetch_allowed [of "js ''http://''" id unparsable] v n
    by (simp add: unparsable_def)
qed

text \<open>
  C8, amended. For an allowed url the request is made with the timeout of 5000
  milliseconds, and the handler answers 500 with \<open>{error: "fetch failed", detail: String(e)}\<close>
  if and only if the request or the reading of the body throws an error \<open>e\<close>, of whatever
  kind: a failure of the network, the expiry of the timeout, or any other error of the
  fetch library. A response of the upstream with any status code, once its body is read,
  is a success: the handler answers 200 and carries the upstream status in the field
  \<open>status\<close> of the body.
\<close>

theorem fetch_failed_iff_thrown:
  assumes "trim raw \<noteq> []" and "validate ul (trim raw) = Allowed"
  shows "(failure_of (net (Fetch (trim raw) (js ''follow'') 5000)) = Some (Thrown kind s) \<longrightarrow>
            api_fetch ul net (QString raw) =
              (Sent (Json 500 [(''error'', JString (js ''fetch failed'')), (''detail'', JString s)]),
               [Fetch (trim raw) (js ''follow'') 5000])) \<and>
         ((\<exists>e. failure_of (net (Fetch (trim raw) (js ''follow'') 5000)) = Some e \<and> String_of e = d) \<longleftrightarrow>
            api_fetch ul net (QString raw) =
              (Sent (Json 500 [(''error'', JString (js ''fetch failed'')), (''detail'', JString d)]),
               [Fetch (trim raw) (js ''follow'') 5000])) \<and>
         (failure_of (net (Fetch (trim raw) (js ''follow'') 5000)) \<noteq> None \<longleftrightarrow>
            (\<exists>fields. fst (api_fetch ul net (QString raw)) = Sent (Json 500 fields))) \<and>
         (net (Fetch (trim raw) (js ''follow'') 5000) = Resolved status (BodyText text) \<longrightarrow>
            api_fetch ul net (QString raw) =
              (Sent (Json 200 [(''status'', JNumber status), (''url'', JString (trim raw)),
                               (''body'', JString (snippet text))]),
               [Fetch (trim raw) (js ''follow'') 5000]))"
  by (auto simp: api_fetch_allowed [OF assms] failure_of_def
      split: fetch_outcome.splits body_read.splits)

theorem fetch_failed_iff_thrown_witness:
  "trim (js ''http://example.com/'') \<noteq> [] \<and>
   validate id (trim (js ''http://example.com/'')) = Allowed \<and>
   failure_of (refusing (Fetch (trim (js ''http://example.com/'')) (js ''follow'') 5000)) =
     Some (Thrown NetworkFailure (js ''FetchError: connect ECONNREFUSED'')) \<and>
   api_fetch id refusing (QString (js ''http://example.com/'')) =
     (Sent (Json 500 [(''error'', JString (js ''fetch failed'')),
                      (''detail'', JString (js ''FetchError: connect ECONNREFUSED''))]),
      [Fetch (trim (js ''http://example.com/'')) (js ''follow'') 5000]) \<and>
   failure_of (timing_out (Fetch (trim (js ''http://example.com/'')) (js ''follow'') 5000)) =
     Some (Thrown TimeoutExpired (js ''FetchError: network timeout'')) \<and>
   api_fetch id timing_out (QString (js ''http://example.com/'')) =
     (Sent (Json 500 [(''error'', JString (js ''fetch failed'')),
                      (''detail'', JString (js ''FetchError: network timeout''))]),
      [Fetch (trim (js ''http://example.com/'')) (js ''follow'') 5000]) \<and>
   serving 404 (js ''not found'') (Fetch (trim (js ''http://example.com/'')) (js ''follow'') 5000) =
     Resolved 404 (BodyText (js ''not found'')) \<and>
   api_fetch id (serving 404 (js ''not found'')) (QString (js ''http://example.com/'')) =
     (Sent (Json 200 [(''status'', JNumber 404), (''url'', JString (trim (js ''http://example.com/''))),
                      (''body'', JString (snippet (js ''not found'')))]),
      [Fetch (trim (js ''http://example.com/'')) (js ''follow'') 5000])"
proof -
  have v: "trim (js ''http://example.com/'') \<noteq> []"
    "validate id (trim (js ''http://example.com/'')) = Allowed"
    by (simp_all add: eval_simps)
  have f: "failure_of (refusing (Fetch (trim (js ''http://example.com/'')) (js ''follow'') 5000)) =
     Some (Thrown NetworkFailure (js ''FetchError: connect ECONNREFUSED''))"
    by (simp add: failure_of_def refusing_def)
  have t: "failure_of (timing_out (Fetch (trim (js ''http://example.com/'')) (js ''follow'') 5000)) =
     Some (Thrown TimeoutExpired (js ''FetchError: network timeout''))"
    by (simp add: failure_of_def timing_out_def)
  have s: "serving 404 (js ''not found'')
      (Fetch (trim (js ''http://example.com/'')) (js ''follow'') 5000) =
     Resolved 404 (BodyText (js ''not found''))"
    by (simp add: serving_def)
  show ?thesis
    using v f t s
      fetch_failed_iff_thrown [OF v, of refusing NetworkFailure "js ''FetchError: connect ECONNREFUSED''"]
      fetch_failed_iff_thrown [OF v, of timing_out TimeoutExpired "js ''FetchError: network timeout''"]
      fetch_failed_iff_thrown [OF v, of "serving 404 (js ''not found'')" _ _ _ 404 "js ''not found''"]
    by blast
qed

subsection \<open>The secret of the internal service\<close>




text \<open>
  A request with a parameter that is no string makes the handler throw: the rejection is
  not handled, and the request for the flag that follows is not answered.
\<close>

lemma run_after_throw_example:
  "fst (run sample_env id [(sample_env, refusing, GetApiFetch QOther),
                            (sample_env, refusing, GetInternalFlag)]) =
     [Some (Threw, []), None]"
  by (simp add: run_def start_def handle_def api_fetch_QOther)

subsection \<open>A parameter of white space\<close>

text \<open>
  C10. A parameter \<open>url\<close> that consists of white space only (the characters that
  \<open>trim\<close> strips) is answered with 400 and \<open>{error: "url parameter required"}\<close>, with no
  outbound request, in every world and whatever the forbidlist and the test of the scheme
  would say: the parameter is trimmed before the test for emptiness, and the answer is
  the one to a missing parameter.
\<close>

theorem whitespace_only_url_rejected:
  assumes "list_all is_white_space raw"
  shows "api_fetch ul net (QString raw) =
           (Sent (Json 400 [(''error'', JString (js ''url parameter required''))]), []) \<and>
         api_fetch ul net (QString raw) = api_fetch ul net Absent"
proof -
  from assms have "trim raw = []" by (rule trim_white_space)
  then have "api_fetch ul net (QString raw) =
     (Sent (Json 400 [(''error'', JString (js ''url parameter required''))]), [])"
    by (rule api_fetch_missing)
  then show ?thesis by (simp add: api_fetch_Absent)
qed

theorem whitespace_only_url_rejected_witness:
  "list_all is_white_space [0x20, 0x09, 0x0A, 0xA0, 0x3000] \<and>
   api_fetch id refusing (QString [0x20, 0x09, 0x0A, 0xA0, 0x3000]) =
     (Sent (Json 400 [(''error'', JString (js ''url parameter required''))]), []) \<and>
   api_fetch id refusing (QString [0x20, 0x09, 0x0A, 0xA0, 0x3000]) = api_fetch id refusing Absent"
proof -
  have w: "list_all is_white_space [0x20, 0x09, 0x0A, 0xA0, 0x3000]"
    by (simp add: is_white_space_def)
  show ?thesis
    using w whitespace_only_url_rejected [OF w, of id refusing] by metis
qed

end
